theory Spec2Isabelle
  imports Complex_Main
begin

section \<open>The Red Light, Green Light referee node\<close>

text \<open>
  The program is one class, \<open>SquidGameNode\<close>, whose fields are mutated by two callbacks
  of a single-threaded executor: the 0.1 s timer (\<open>main_loop\<close>) and the detection
  subscription (\<open>detection_callback\<close>). The model is a record of the fields and one
  function per method, each taking the node and returning the updated node.

  \<^item> Python floats are modelled as \<open>real\<close> (finite values); clock readings are
    integers of nanoseconds, as \<open>rclpy\<close> keeps them. The subtractions of
    \<open>detect_movement\<close>, whose results are compared strictly with the movement
    threshold, are rounded to binary64 as the program's are. The elapsed time and the
    light duration are computed exactly, so a stored deadline can be one nanosecond
    away from the program's.
  \<^item> Everything a method reads from outside the object comes in as an input of the
    tick: the clock readings, the outcome of \<open>random.choice\<close>, the outcome of
    \<open>random.random\<close> used by \<open>random.uniform\<close>, and the number of iterations the
    wall-clock loop of \<open>perform_180_rotation\<close> makes.
  \<^item> Everything a method does to the outside (speech, sound, log lines, published
    messages, velocity commands, sleeping) is appended to the field \<open>effects\<close>.
  \<^item> A Python exception is a value \<open>Inl e\<close>.
\<close>

subsection \<open>Data\<close>

record bbox2d =
  center_x :: real
  center_y :: real
  size_x :: real
  size_y :: real

text \<open>One entry of \<open>msg.detections\<close>: the class ids of its hypotheses and its box.\<close>

record detection =
  results :: "string list"
  bbox :: bbox2d

datatype effect =
    Speak string
  | Sleep real
  | PlaySound string
  | Publish string
  | CmdVel real
  | LogInfo string
  | LogError string
  | LogLight string real
  | LogMovement real real real real

datatype error = TypeError | AttributeError | ZeroDivisionError

record node =
  state :: string
  time_limit :: real
  elapsed_time :: real
  game_start_time :: "int option"
  current_light_duration :: real
  light_end_time :: "int option"
  movement_threshold :: real
  size_y_finish_line :: real
  player_reached_finish_line :: bool
  player_moved :: bool
  rotation_speed :: real
  previous_detection :: "detection option"
  current_detection :: "detection option"
  random_interval_min :: real
  random_interval_max :: real
  game_result :: "string option"
  timer_active :: bool
  effects :: "effect list"

text \<open>
  \<open>game_result\<close> is not assigned by \<open>__init__\<close>: \<open>None\<close> stands for the attribute
  being absent, and reading it then raises \<open>AttributeError\<close>. \<open>timer_active\<close> is the
  timer created by \<open>create_timer\<close>, switched off by \<open>timer.cancel()\<close>.
\<close>

record env =
  clock_now :: int
  clock_light :: int
  choice :: bool
  rnd :: real
  spins :: nat

text \<open>
  \<open>clock_now\<close> is the reading taken at the top of the tick, \<open>clock_light\<close> the later
  reading taken inside \<open>start_green_light\<close> / \<open>start_red_light\<close>.
\<close>

definition initial :: node where
  "initial = \<lparr>
     state = ''INSTRUCTIONS'',
     time_limit = 120,
     elapsed_time = 0,
     game_start_time = None,
     current_light_duration = 0,
     light_end_time = None,
     movement_threshold = 10,
     size_y_finish_line = 400,
     player_reached_finish_line = False,
     player_moved = False,
     rotation_speed = 1,
     previous_detection = None,
     current_detection = None,
     random_interval_min = 8 / 10,
     random_interval_max = 12 / 10,
     game_result = None,
     timer_active = True,
     effects = [LogInfo ''Squid Game Node Initialized.'']\<rparr>"

subsection \<open>Helpers and feedback actions\<close>

definition emit :: "effect list \<Rightarrow> node \<Rightarrow> node" where
  "emit es s = s\<lparr>effects := effects s @ es\<rparr>"

text \<open>
  \<open>speak_text\<close> runs \<open>espeak\<close>; the source catches and logs a failure of that call,
  so the method always returns. The model records the call.
\<close>

definition speak_text :: "string \<Rightarrow> node \<Rightarrow> node" where
  "speak_text text s = emit [Speak text] s"

definition publish_state :: "string \<Rightarrow> node \<Rightarrow> node" where
  "publish_state st s = emit [Publish st] s"

text \<open>\<open>random.uniform(a, b)\<close> is \<open>a + (b - a) * random()\<close>.\<close>

definition uniform :: "real \<Rightarrow> real \<Rightarrow> real \<Rightarrow> real" where
  "uniform a b r = a + (b - a) * r"

text \<open>\<open>Duration(seconds=d)\<close> keeps \<open>int(d * 1e9)\<close> nanoseconds (truncation).\<close>

definition duration_ns :: "real \<Rightarrow> int" where
  "duration_ns d = (if 0 \<le> d then \<lfloor>d * 10 ^ 9\<rfloor> else \<lceil>d * 10 ^ 9\<rceil>)"

text \<open>
  \<open>perform_180_rotation\<close>: the loop runs while the wall clock is below its bound,
  publishing the rotation speed and sleeping 0.1 s each time; \<open>n\<close> is the number of
  iterations the wall clock allowed. The division \<open>math.pi / self.rotation_speed\<close>
  raises when the speed is zero.
\<close>

definition perform_180_rotation :: "nat \<Rightarrow> node \<Rightarrow> error + node" where
  "perform_180_rotation n s =
     (if rotation_speed s = 0 then Inl ZeroDivisionError
      else Inr (emit (concat (replicate n [CmdVel (rotation_speed s), Sleep (1 / 10)])
                      @ [CmdVel 0, LogInfo ''180-degree rotation completed.'']) s))"

subsection \<open>Light scheduler\<close>

definition start_green_light :: "env \<Rightarrow> node \<Rightarrow> node" where
  "start_green_light e s =
     (let d = uniform (random_interval_min s) (random_interval_max s) (rnd e) in
      emit [PlaySound ''green_light.mp3'', LogLight ''GREEN_LIGHT'' d, Publish ''GREEN_LIGHT'']
        (s\<lparr>state := ''GREEN_LIGHT'',
           current_light_duration := d,
           light_end_time := Some (clock_light e + duration_ns d)\<rparr>))"

definition start_red_light :: "env \<Rightarrow> node \<Rightarrow> node" where
  "start_red_light e s =
     (let d = uniform (random_interval_min s) (random_interval_max s) (rnd e) in
      publish_state ''RED_LIGHT''
        ((emit [PlaySound ''red_light.mp3'', LogLight ''RED_LIGHT'' d]
           (s\<lparr>state := ''RED_LIGHT'',
              current_light_duration := d,
              light_end_time := Some (clock_light e + duration_ns d)\<rparr>))
         \<lparr>previous_detection := None, player_moved := False\<rparr>))"

definition start_random_light :: "env \<Rightarrow> node \<Rightarrow> node" where
  "start_random_light e s =
     (if state s = ''GREEN_LIGHT'' then start_red_light e s
      else if state s = ''RED_LIGHT'' then
        (if choice e then start_green_light e s else start_red_light e s)
      else
        (if choice e then start_green_light e s else start_red_light e s))"

subsection \<open>The phases of the main loop\<close>

definition instructions :: "string list" where
  "instructions =
     [''Welcome to Red Light Green Light.'',
      ''The rules are simple.'',
      ''When you hear Green Light, you can move forward.'',
      ''When you hear Red Light, you must freeze.'',
      ''If you move during Red Light, you will be eliminated.'',
      ''Reach the finish line to win.'',
      ''You have 2 minutes to complete the game.'',
      ''Get ready!'']"

fun speak_all :: "string list \<Rightarrow> real \<Rightarrow> node \<Rightarrow> node" where
  "speak_all [] pause s = s"
| "speak_all (t # ts) pause s = speak_all ts pause (emit [Sleep pause] (speak_text t s))"

definition instructions_state :: "env \<Rightarrow> node \<Rightarrow> error + node" where
  "instructions_state e s =
     (case perform_180_rotation (spins e) (speak_all instructions (1 / 2) s) of
        Inl err \<Rightarrow> Inl err
      | Inr s1 \<Rightarrow>
          Inr (emit [LogInfo ''Instructions completed, starting countdown.'']
                 (s1\<lparr>state := ''COUNTDOWN''\<rparr>)))"

definition countdown_state :: "node \<Rightarrow> node" where
  "countdown_state s =
     emit [LogInfo ''Countdown completed, starting game.'']
       ((speak_text ''Begin!'' (speak_all [''3'', ''2'', ''1''] 1 s))\<lparr>state := ''INIT''\<rparr>)"

definition init_state :: "env \<Rightarrow> node \<Rightarrow> node" where
  "init_state e s =
     start_random_light e
       ((emit [LogInfo ''Game Starting.''] s)
          \<lparr>game_start_time := Some (clock_now e), elapsed_time := 0\<rparr>)"

definition green_light_state :: "env \<Rightarrow> node \<Rightarrow> error + node" where
  "green_light_state e s =
     (case game_start_time s of
        None \<Rightarrow> Inl TypeError
      | Some t0 \<Rightarrow>
          let s1 = s\<lparr>elapsed_time := real_of_int (clock_now e - t0) / 10 ^ 9\<rparr> in
          if elapsed_time s1 \<ge> time_limit s1 then
            Inr ((emit [LogInfo ''Time limit reached. Player loses.'']
                    (speak_text ''Time's up! Game Over!'' s1))
                 \<lparr>state := ''GAME_OVER'', game_result := Some ''LOSE''\<rparr>)
          else if player_reached_finish_line s1 then
            Inr ((emit [LogInfo ''Player reached finish line. Player wins!'']
                    (speak_text ''Congratulations! You've won!'' s1))
                 \<lparr>state := ''GAME_OVER'', game_result := Some ''WIN''\<rparr>)
          else
            (case light_end_time s1 of
               None \<Rightarrow> Inl TypeError
             | Some t1 \<Rightarrow>
                 if clock_now e \<ge> t1 then Inr (start_random_light e s1) else Inr s1))"

definition red_light_state :: "env \<Rightarrow> node \<Rightarrow> error + node" where
  "red_light_state e s =
     (case game_start_time s of
        None \<Rightarrow> Inl TypeError
      | Some t0 \<Rightarrow>
          let s1 = s\<lparr>elapsed_time := real_of_int (clock_now e - t0) / 10 ^ 9\<rparr> in
          if elapsed_time s1 \<ge> time_limit s1 then
            Inr ((emit [LogInfo ''Time limit reached. Player loses.'']
                    (speak_text ''Time's up! Game Over!'' s1))
                 \<lparr>state := ''GAME_OVER'', game_result := Some ''LOSE''\<rparr>)
          else if player_moved s1 then
            (case perform_180_rotation (spins e) s1 of
               Inl err \<Rightarrow> Inl err
             | Inr s2 \<Rightarrow>
                 Inr ((emit [LogInfo ''Player moved during RED_LIGHT. Player loses.'']
                         (speak_text ''Movement detected! You're eliminated!''
                            (emit [PlaySound ''lose.mp3''] s2)))
                      \<lparr>state := ''GAME_OVER'', game_result := Some ''LOSE''\<rparr>))
          else
            (case light_end_time s1 of
               None \<Rightarrow> Inl TypeError
             | Some t1 \<Rightarrow>
                 if clock_now e \<ge> t1 then Inr (start_random_light e s1) else Inr s1))"

definition game_over_state :: "node \<Rightarrow> error + node" where
  "game_over_state s =
     (case game_result s of
        None \<Rightarrow> Inl AttributeError
      | Some r \<Rightarrow>
          Inr ((publish_state ''GAME_OVER''
                  (emit [LogInfo (if r = ''WIN'' then ''Game Over: Player Wins!''
                                  else ''Game Over: Player Loses.'')] s))
               \<lparr>timer_active := False\<rparr>))"

definition main_loop :: "env \<Rightarrow> node \<Rightarrow> error + node" where
  "main_loop e s =
     (if state s = ''INSTRUCTIONS'' then instructions_state e s
      else if state s = ''COUNTDOWN'' then Inr (countdown_state s)
      else if state s = ''INIT'' then Inr (init_state e s)
      else if state s = ''GREEN_LIGHT'' then green_light_state e s
      else if state s = ''RED_LIGHT'' then red_light_state e s
      else if state s = ''GAME_OVER'' then game_over_state s
      else Inr (emit [LogError (''Unknown state: '' @ state s)] s))"

subsection \<open>Binary64 rounding\<close>

text \<open>
  A Python float is an IEEE 754 binary64 number and \<open>a - b\<close> is the exact difference
  rounded to the nearest such number, ties to the even significand.
  \<open>float64_exponent x\<close> is the binary exponent of \<open>x\<close>, held at \<open>-1022\<close> in the
  subnormal range; the numbers representable at that exponent are the multiples of
  \<open>2 powi (float64_exponent x - 52)\<close>, and \<open>float64_round\<close> takes the nearest one.
  A difference beyond the largest binary64 number, which the program turns into
  \<open>inf\<close>, stays a finite number above every binary64 number here.
\<close>

definition round_half_even :: "real \<Rightarrow> int" where
  "round_half_even y =
     (let f = \<lfloor>y\<rfloor> in
      if y - of_int f < 1 / 2 then f
      else if y - of_int f > 1 / 2 then f + 1
      else if even f then f else f + 1)"

definition float64_exponent :: "real \<Rightarrow> int" where
  "float64_exponent x = (if x = 0 then - 1022 else max (- 1022) \<lfloor>log 2 \<bar>x\<bar>\<rfloor>)"

definition float64_round :: "real \<Rightarrow> real" where
  "float64_round x =
     of_int (round_half_even (x / 2 powi (float64_exponent x - 52)))
       * 2 powi (float64_exponent x - 52)"

subsection \<open>Detection tracker\<close>

text \<open>
  The four local variables of \<open>detect_movement\<close>: \<open>abs\<close> of a float difference.
  \<open>abs\<close> and the comparison with the threshold are exact on floats.
\<close>

definition delta_x :: "detection \<Rightarrow> detection \<Rightarrow> real" where
  "delta_x prev_det curr_det =
     \<bar>float64_round (center_x (bbox curr_det) - center_x (bbox prev_det))\<bar>"

definition delta_y :: "detection \<Rightarrow> detection \<Rightarrow> real" where
  "delta_y prev_det curr_det =
     \<bar>float64_round (center_y (bbox curr_det) - center_y (bbox prev_det))\<bar>"

definition delta_size_x :: "detection \<Rightarrow> detection \<Rightarrow> real" where
  "delta_size_x prev_det curr_det =
     \<bar>float64_round (size_x (bbox curr_det) - size_x (bbox prev_det))\<bar>"

definition delta_size_y :: "detection \<Rightarrow> detection \<Rightarrow> real" where
  "delta_size_y prev_det curr_det =
     \<bar>float64_round (size_y (bbox curr_det) - size_y (bbox prev_det))\<bar>"

text \<open>\<open>detect_movement\<close> returns its verdict and the node with the log line added.\<close>

definition detect_movement :: "detection \<Rightarrow> detection \<Rightarrow> node \<Rightarrow> bool \<times> node" where
  "detect_movement prev_det curr_det s =
     (if delta_x prev_det curr_det > movement_threshold s
         \<or> delta_y prev_det curr_det > movement_threshold s
         \<or> delta_size_x prev_det curr_det > movement_threshold s
         \<or> delta_size_y prev_det curr_det > movement_threshold s
      then (True, emit [LogMovement (delta_x prev_det curr_det) (delta_y prev_det curr_det)
                          (delta_size_x prev_det curr_det) (delta_size_y prev_det curr_det)] s)
      else (False, s))"

text \<open>
  The selection loops of \<open>detection_callback\<close>. The accumulator is the triple of local
  variables \<open>(person_detected, max_size_y, detection)\<close>.
\<close>

type_synonym selection = "bool \<times> real \<times> detection option"

fun scan_results :: "detection \<Rightarrow> string list \<Rightarrow> selection \<Rightarrow> selection" where
  "scan_results det [] acc = acc"
| "scan_results det (class_id # rs) (person_detected, max_size_y, sel) =
     scan_results det rs
       (if class_id = ''15'' then
          (if size_y (bbox det) > max_size_y then (True, size_y (bbox det), Some det)
           else (person_detected, max_size_y, sel))
        else (person_detected, max_size_y, sel))"

fun scan_detections :: "detection list \<Rightarrow> selection \<Rightarrow> selection" where
  "scan_detections [] acc = acc"
| "scan_detections (det # ds) acc = scan_detections ds (scan_results det (results det) acc)"

definition select_person :: "detection list \<Rightarrow> selection" where
  "select_person msg = scan_detections msg (False, 0, None)"

definition detection_callback :: "detection list \<Rightarrow> node \<Rightarrow> error + node" where
  "detection_callback msg s =
     (case select_person msg of
        (person_detected, max_size_y, sel) \<Rightarrow>
          if person_detected then
            (case sel of
               None \<Rightarrow> Inl AttributeError
             | Some d \<Rightarrow>
                 let s1 = s\<lparr>current_detection := Some d\<rparr>;
                     s2 = (if size_y (bbox d) \<ge> size_y_finish_line s1
                           then s1\<lparr>player_reached_finish_line := True\<rparr> else s1);
                     s3 = (if state s2 = ''RED_LIGHT'' then
                             (case previous_detection s2 of
                                None \<Rightarrow> s2
                              | Some p \<Rightarrow>
                                  (case detect_movement p d s2 of
                                     (moved, s') \<Rightarrow>
                                       if moved then s'\<lparr>player_moved := True\<rparr> else s'))
                           else s2)
                 in Inr (s3\<lparr>previous_detection := current_detection s3\<rparr>))
          else Inr s)"

subsection \<open>The executor: ticks and detection messages, one at a time\<close>

datatype event = Tick env | Detection "detection list"

text \<open>A cancelled timer delivers no tick; an exception ends the run.\<close>

fun step :: "event \<Rightarrow> node \<Rightarrow> error + node" where
  "step (Tick e) s = (if timer_active s then main_loop e s else Inr s)"
| "step (Detection msg) s = detection_callback msg s"

fun run :: "event list \<Rightarrow> node \<Rightarrow> error + node" where
  "run [] s = Inr s"
| "run (ev # evs) s = (case step ev s of Inl err \<Rightarrow> Inl err | Inr s' \<Rightarrow> run evs s')"

subsection \<open>Bookkeeping for the red-light interval\<close>

text \<open>
  A RedLight interval begins when \<open>start_red_light\<close> runs, which is the only place
  that publishes \<open>RED_LIGHT\<close> on the \<open>game_state\<close> topic, as the last thing it does.
  \<open>red_light_announced s s'\<close> recognises a tick that did so. \<open>run_seen\<close> is \<open>run\<close>
  with one more component, which records whether a person detection has arrived since
  the latest such announcement.
\<close>

definition red_light_announced :: "node \<Rightarrow> node \<Rightarrow> bool" where
  "red_light_announced s s' \<longleftrightarrow>
     effects s' \<noteq> effects s \<and> last (effects s') = Publish ''RED_LIGHT''"

fun person_seen :: "event \<Rightarrow> node \<Rightarrow> node \<Rightarrow> bool \<Rightarrow> bool" where
  "person_seen (Tick e) s s' b = (if red_light_announced s s' then False else b)"
| "person_seen (Detection msg) s s' b = (b \<or> fst (select_person msg))"

fun run_seen :: "event list \<Rightarrow> node \<times> bool \<Rightarrow> error + node \<times> bool" where
  "run_seen [] sb = Inr sb"
| "run_seen (ev # evs) (s, b) =
     (case step ev s of
        Inl err \<Rightarrow> Inl err
      | Inr s' \<Rightarrow> run_seen evs (s', person_seen ev s s' b))"

text \<open>What an observer of a run sees of the phase and of the stored baseline.\<close>

definition phase_and_baseline :: "error + node \<Rightarrow> (string \<times> bool) option" where
  "phase_and_baseline r =
     (case r of Inl err \<Rightarrow> None | Inr s \<Rightarrow> Some (state s, previous_detection s \<noteq> None))"

subsection \<open>Sample inputs\<close>

definition person :: "real \<Rightarrow> real \<Rightarrow> real \<Rightarrow> real \<Rightarrow> detection" where
  "person cx cy w h =
     \<lparr>results = [''15''], bbox = \<lparr>center_x = cx, center_y = cy, size_x = w, size_y = h\<rparr>\<rparr>"

definition tick_at :: "int \<Rightarrow> bool \<Rightarrow> env" where
  "tick_at t c = \<lparr>clock_now = t, clock_light = t, choice = c, rnd = 1 / 2, spins = 0\<rparr>"

text \<open>A node in the middle of a light phase: game started at 0, phase ends at 10^9 ns.\<close>

definition playing :: "string \<Rightarrow> node" where
  "playing ph = initial\<lparr>state := ph, game_start_time := Some 0,
                       current_light_duration := 1, light_end_time := Some (10 ^ 9)\<rparr>"

definition finished :: node where
  "finished = (playing ''GAME_OVER'')\<lparr>game_result := Some ''LOSE''\<rparr>"

definition caught :: node where
  "caught = (playing ''GREEN_LIGHT'')
     \<lparr>player_moved := True, previous_detection := Some (person 100 100 50 80)\<rparr>"

definition watching :: node where
  "watching = (playing ''RED_LIGHT'')\<lparr>previous_detection := Some (person 100 100 50 80)\<rparr>"

text \<open>
  The binary64 numbers nearest to 0.3 and to 10.3, and a node in \<open>RED_LIGHT\<close> whose
  stored previous detection has the first as its height.
\<close>

definition float_0_3 :: real where
  "float_0_3 = 5404319552844595 / 18014398509481984"

definition float_10_3 :: real where
  "float_10_3 = 2899192260119757 / 281474976710656"

definition crouching :: node where
  "crouching = (playing ''RED_LIGHT'')\<lparr>previous_detection := Some (person 100 100 50 float_0_3)\<rparr>"

definition sprinting :: node where
  "sprinting = (playing ''GREEN_LIGHT'')\<lparr>player_reached_finish_line := True\<rparr>"

text \<open>
  Three ticks take the node through \<open>INSTRUCTIONS\<close>, \<open>COUNTDOWN\<close> and \<open>INIT\<close>; the
  draw of the third tick picks the first light.
\<close>

definition red_opening :: "event list" where
  "red_opening = [Tick (tick_at 0 True), Tick (tick_at 0 True), Tick (tick_at 0 False)]"

definition green_opening :: "event list" where
  "green_opening = [Tick (tick_at 0 True), Tick (tick_at 0 True), Tick (tick_at 0 True)]"

definition winning_run :: "event list" where
  "winning_run =
     [Tick (tick_at 0 True), Tick (tick_at 0 True), Tick (tick_at 0 True),
      Detection [person 100 100 60 450], Tick (tick_at (5 * 10 ^ 8) True)]"

subsection \<open>The result field against the phase\<close>

text \<open>
  \<open>game_result\<close> holds \<open>WIN\<close> or \<open>LOSE\<close> in \<open>GAME_OVER\<close> and is absent in every
  other phase.
\<close>

definition result_matches_phase :: "node \<Rightarrow> bool" where
  "result_matches_phase s =
     (if state s = ''GAME_OVER''
      then game_result s = Some ''WIN'' \<or> game_result s = Some ''LOSE''
      else game_result s = None)"

section \<open>Properties\<close>

subsection \<open>Frame facts of the feedback actions and the light entries\<close>

lemmas act_defs = emit_def speak_text_def publish_state_def

lemma speak_all_emit:
  "speak_all ts p s = emit (concat (map (\<lambda>t. [Speak t, Sleep p]) ts)) s"
  by (induction ts arbitrary: s) (simp_all add: act_defs)

lemma start_red_light_fields:
  "state (start_red_light e s) = ''RED_LIGHT''"
  "previous_detection (start_red_light e s) = None"
  "player_moved (start_red_light e s) = False"
  "game_result (start_red_light e s) = game_result s"
  "player_reached_finish_line (start_red_light e s) = player_reached_finish_line s"
  "timer_active (start_red_light e s) = timer_active s"
  "game_start_time (start_red_light e s) = game_start_time s"
  "light_end_time (start_red_light e s) \<noteq> None"
  "effects (start_red_light e s) \<noteq> effects s"
  "last (effects (start_red_light e s)) = Publish ''RED_LIGHT''"
  by (simp_all add: start_red_light_def act_defs Let_def)

lemma start_green_light_fields:
  "state (start_green_light e s) = ''GREEN_LIGHT''"
  "previous_detection (start_green_light e s) = previous_detection s"
  "player_moved (start_green_light e s) = player_moved s"
  "game_result (start_green_light e s) = game_result s"
  "player_reached_finish_line (start_green_light e s) = player_reached_finish_line s"
  "timer_active (start_green_light e s) = timer_active s"
  "game_start_time (start_green_light e s) = game_start_time s"
  "light_end_time (start_green_light e s) \<noteq> None"
  by (simp_all add: start_green_light_def act_defs Let_def)

lemma start_red_light_effects:
  "effects (start_red_light e s) =
     effects s @ [PlaySound ''red_light.mp3'',
                  LogLight ''RED_LIGHT'' (uniform (random_interval_min s) (random_interval_max s) (rnd e)),
                  Publish ''RED_LIGHT'']"
  by (simp add: start_red_light_def act_defs Let_def)

lemma start_green_light_effects:
  "effects (start_green_light e s) =
     effects s @ [PlaySound ''green_light.mp3'',
                  LogLight ''GREEN_LIGHT'' (uniform (random_interval_min s) (random_interval_max s) (rnd e)),
                  Publish ''GREEN_LIGHT'']"
  by (simp add: start_green_light_def act_defs Let_def)

lemmas phase_defs = instructions_state_def countdown_state_def init_state_def
  green_light_state_def red_light_state_def game_over_state_def perform_180_rotation_def
  start_random_light_def

lemmas eval_defs = main_loop_def phase_defs act_defs start_green_light_def start_red_light_def
  Let_def uniform_def duration_ns_def tick_at_def playing_def initial_def person_def
  select_person_def detection_callback_def detect_movement_def
  delta_x_def delta_y_def delta_size_x_def delta_size_y_def instructions_def

subsection \<open>Binary64 rounding\<close>

text \<open>
  The rounded value is within half a unit in the last place of the exact one, zero is
  kept, and the value is determined once the exponent is known.
\<close>

lemma round_half_even_near: "\<bar>of_int (round_half_even y) - y\<bar> \<le> 1 / 2"
  unfolding round_half_even_def Let_def by (auto; linarith)

lemma round_half_even_ties:
  "round_half_even (1 / 2) = 0" "round_half_even (3 / 2) = 2" "round_half_even (5 / 2) = 2"
  "round_half_even (- (1 / 2)) = 0" "round_half_even (- (3 / 2)) = - 2"
  by (simp_all add: round_half_even_def Let_def)

lemma float64_round_zero: "float64_round 0 = 0"
  by (simp add: float64_round_def round_half_even_def)

lemma float64_exponent_eq:
  assumes "2 powi e \<le> \<bar>x\<bar>" and "\<bar>x\<bar> < 2 powi (e + 1)" and "- 1022 \<le> e"
  shows "float64_exponent x = e"
proof -
  have "0 < (2::real) powi e"
    by (simp add: zero_less_power_int)
  with assms(1) have pos: "0 < \<bar>x\<bar>"
    by linarith
  have "(2::real) powr real_of_int e = 2 powi e"
    and "(2::real) powr (real_of_int e + 1) = 2 powi (e + 1)"
    using powr_real_of_int' [of "2::real" e] powr_real_of_int' [of "2::real" "e + 1"]
    by simp_all
  with assms(1,2)
  have "(2::real) powr real_of_int e \<le> \<bar>x\<bar> \<and> \<bar>x\<bar> < 2 powr (real_of_int e + 1)"
    by simp
  with pos have "\<lfloor>log 2 \<bar>x\<bar>\<rfloor> = e"
    by (simp add: floor_log_eq_powr_iff)
  with pos assms(3) show ?thesis
    by (auto simp add: float64_exponent_def)
qed

lemma float64_round_at:
  assumes "2 powi e \<le> \<bar>x\<bar>" and "\<bar>x\<bar> < 2 powi (e + 1)" and "- 1022 \<le> e"
  shows "float64_round x = of_int (round_half_even (x / 2 powi (e - 52))) * 2 powi (e - 52)"
  by (simp add: float64_round_def float64_exponent_eq [OF assms])

lemma float64_round_error:
  "\<bar>float64_round x - x\<bar> \<le> 2 powi (float64_exponent x - 53)"
proof -
  define u :: real where "u = 2 powi (float64_exponent x - 52)"
  have u: "0 < u" by (simp add: u_def zero_less_power_int)
  have "float64_round x - x = u * (of_int (round_half_even (x / u)) - x / u)"
    using u by (simp add: float64_round_def u_def [symmetric] algebra_simps)
  then have "\<bar>float64_round x - x\<bar> = u * \<bar>of_int (round_half_even (x / u)) - x / u\<bar>"
    using u by (simp add: abs_mult)
  also have "\<dots> \<le> u * (1 / 2)"
    using u round_half_even_near [of "x / u"] by (intro mult_left_mono) auto
  also have "\<dots> = 2 powi (float64_exponent x - 53)"
    by (simp add: u_def power_int_diff)
  finally show ?thesis .
qed

text \<open>
  Two differences evaluated: \<open>95 - 80\<close> is exact; the difference of the binary64
  neighbours of 10.3 and 0.3 is above 10 and rounds to 10.
\<close>

lemma float64_round_15: "float64_round 15 = 15"
  by (simp add: float64_round_at [of 3] round_half_even_def power_int_minus)

lemma float64_round_boundary: "float64_round (float_10_3 - float_0_3) = 10"
  by (simp add: float_10_3_def float_0_3_def float64_round_at [of 3] round_half_even_def
        power_int_minus Let_def)

subsection \<open>The selection loop\<close>

text \<open>
  The flag \<open>person_detected\<close> and the selected detection are set together, so the
  callback never dereferences an absent selection.
\<close>

lemma scan_results_sel:
  "(fst acc \<longleftrightarrow> snd (snd acc) \<noteq> None) \<Longrightarrow>
   (fst (scan_results det rs acc) \<longleftrightarrow> snd (snd (scan_results det rs acc)) \<noteq> None)"
proof (induction rs arbitrary: acc)
  case Nil
  then show ?case by simp
next
  case (Cons class_id rs)
  obtain pd m sel where acc: "acc = (pd, m, sel)"
    by (cases acc) auto
  show ?case
    unfolding acc scan_results.simps
    by (rule Cons.IH) (use Cons.prems acc in auto)
qed

lemma scan_detections_sel:
  "(fst acc \<longleftrightarrow> snd (snd acc) \<noteq> None) \<Longrightarrow>
   (fst (scan_detections ds acc) \<longleftrightarrow> snd (snd (scan_detections ds acc)) \<noteq> None)"
  by (induction ds arbitrary: acc) (simp_all add: scan_results_sel)

lemma select_person_sel:
  "select_person msg = (pd, m, sel) \<Longrightarrow> (pd \<longleftrightarrow> sel \<noteq> None)"
  using scan_detections_sel [of "(False, 0, None)" msg]
  by (simp add: select_person_def)

text \<open>
  The callback written out for a frame with no person and for a frame whose selected
  person is \<open>d\<close>.
\<close>

lemma detection_callback_none:
  "select_person msg = (pd, m, None) \<Longrightarrow> detection_callback msg s = Inr s"
  using select_person_sel [of msg pd m None] by (simp add: detection_callback_def)

lemma detection_callback_some:
  assumes "select_person msg = (pd, m, Some d)"
  shows "detection_callback msg s =
     Inr ((if state s = ''RED_LIGHT'' then
            (case previous_detection s of
               None \<Rightarrow> s\<lparr>current_detection := Some d,
                        player_reached_finish_line :=
                          player_reached_finish_line s \<or> size_y (bbox d) \<ge> size_y_finish_line s\<rparr>
             | Some p \<Rightarrow>
                 (if fst (detect_movement p d s)
                  then (emit [LogMovement (delta_x p d) (delta_y p d) (delta_size_x p d) (delta_size_y p d)] s)
                         \<lparr>current_detection := Some d,
                          player_reached_finish_line :=
                            player_reached_finish_line s \<or> size_y (bbox d) \<ge> size_y_finish_line s,
                          player_moved := True\<rparr>
                  else s\<lparr>current_detection := Some d,
                         player_reached_finish_line :=
                           player_reached_finish_line s \<or> size_y (bbox d) \<ge> size_y_finish_line s\<rparr>))
          else s\<lparr>current_detection := Some d,
                 player_reached_finish_line :=
                   player_reached_finish_line s \<or> size_y (bbox d) \<ge> size_y_finish_line s\<rparr>)
         \<lparr>previous_detection := Some d\<rparr>)"
  using select_person_sel [OF assms] assms
  by (auto simp add: detection_callback_def detect_movement_def emit_def Let_def split: option.splits)

lemma detection_callback_state:
  "detection_callback msg s = Inr s' \<Longrightarrow> state s' = state s \<and> game_result s' = game_result s"
proof -
  assume cb: "detection_callback msg s = Inr s'"
  obtain pd m sel where sp: "select_person msg = (pd, m, sel)"
    by (cases "select_person msg") auto
  show ?thesis
  proof (cases sel)
    case None
    with sp cb show ?thesis by (simp add: detection_callback_none)
  next
    case (Some d)
    with sp cb show ?thesis
      by (auto simp add: detection_callback_some emit_def split: if_splits option.splits)
  qed
qed

lemma detection_callback_finish_line:
  "detection_callback msg s = Inr s' \<Longrightarrow> player_reached_finish_line s \<Longrightarrow> player_reached_finish_line s'"
proof -
  assume cb: "detection_callback msg s = Inr s'" and fl: "player_reached_finish_line s"
  obtain pd m sel where sp: "select_person msg = (pd, m, sel)"
    by (cases "select_person msg") auto
  show ?thesis
  proof (cases sel)
    case None
    with sp cb fl show ?thesis by (simp add: detection_callback_none)
  next
    case (Some d)
    with sp cb fl show ?thesis
      by (auto simp add: detection_callback_some emit_def split: if_splits option.splits)
  qed
qed

lemma detection_callback_baseline:
  assumes "detection_callback msg s = Inr s'"
  shows "(previous_detection s' \<noteq> None) =
           (previous_detection s \<noteq> None \<or> fst (select_person msg))"
proof -
  obtain pd m sel where sp: "select_person msg = (pd, m, sel)"
    by (cases "select_person msg") auto
  show ?thesis
  proof (cases sel)
    case None
    with sp assms select_person_sel [OF sp] show ?thesis
      by (simp add: detection_callback_none)
  next
    case (Some d)
    with sp assms select_person_sel [OF sp] show ?thesis
      by (auto simp add: detection_callback_some)
  qed
qed

subsection \<open>Light scheduler\<close>

text \<open>
  Claim C1. Whenever \<open>start_random_light\<close> runs: from \<open>GREEN_LIGHT\<close> the next phase
  is \<open>RED_LIGHT\<close>, whatever the random draw; from \<open>RED_LIGHT\<close>, and from \<open>INIT\<close>
  (or any other phase), the next phase is \<open>GREEN_LIGHT\<close> when the draw is \<open>True\<close> and
  \<open>RED_LIGHT\<close> when it is \<open>False\<close>, so both are possible and red after red is legal.
\<close>

theorem start_random_light_next_phase:
  "(state s = ''GREEN_LIGHT'' \<longrightarrow> state (start_random_light e s) = ''RED_LIGHT'') \<and>
   (state s \<noteq> ''GREEN_LIGHT'' \<longrightarrow>
      state (start_random_light e s) = (if choice e then ''GREEN_LIGHT'' else ''RED_LIGHT''))"
  by (simp add: start_random_light_def start_red_light_fields start_green_light_fields)

theorem start_random_light_next_phase_witness:
  "state (start_random_light (tick_at 5 True) (playing ''GREEN_LIGHT'')) = ''RED_LIGHT'' \<and>
   state (start_random_light (tick_at 5 True) (playing ''RED_LIGHT'')) = ''GREEN_LIGHT'' \<and>
   state (start_random_light (tick_at 5 False) (playing ''RED_LIGHT'')) = ''RED_LIGHT'' \<and>
   state (start_random_light (tick_at 5 True) (playing ''INIT'')) = ''GREEN_LIGHT'' \<and>
   state (start_random_light (tick_at 5 False) (playing ''INIT'')) = ''RED_LIGHT''"
  using start_random_light_next_phase [of "playing ''GREEN_LIGHT''" "tick_at 5 True"]
    start_random_light_next_phase [of "playing ''RED_LIGHT''" "tick_at 5 True"]
    start_random_light_next_phase [of "playing ''RED_LIGHT''" "tick_at 5 False"]
    start_random_light_next_phase [of "playing ''INIT''" "tick_at 5 True"]
    start_random_light_next_phase [of "playing ''INIT''" "tick_at 5 False"]
  by (simp add: playing_def tick_at_def)

subsection \<open>Movement detection\<close>

text \<open>
  Claim C2. In \<open>RED_LIGHT\<close>, when a previous detection \<open>p\<close> is stored and the
  frame's selected person is \<open>c\<close>, the callback compares them: \<open>detect_movement\<close>
  answers true exactly when one of the four absolute differences, of the centre x,
  the centre y, the width \<open>size_x\<close> or the height \<open>size_y\<close> of the two boxes, each as
  the program computes it in binary64, is strictly above the movement threshold; the
  movement flag becomes true in that case and keeps its value otherwise.
\<close>

theorem movement_flagged_iff_delta_exceeds:
  assumes "state s = ''RED_LIGHT''"
      and "previous_detection s = Some p"
      and "select_person msg = (True, m, Some c)"
  shows "\<exists>s'. detection_callback msg s = Inr s' \<and>
           (fst (detect_movement p c s) \<longleftrightarrow>
              \<bar>float64_round (center_x (bbox c) - center_x (bbox p))\<bar> > movement_threshold s \<or>
              \<bar>float64_round (center_y (bbox c) - center_y (bbox p))\<bar> > movement_threshold s \<or>
              \<bar>float64_round (size_x (bbox c) - size_x (bbox p))\<bar> > movement_threshold s \<or>
              \<bar>float64_round (size_y (bbox c) - size_y (bbox p))\<bar> > movement_threshold s) \<and>
           player_moved s' =
             (if \<bar>float64_round (center_x (bbox c) - center_x (bbox p))\<bar> > movement_threshold s \<or>
                 \<bar>float64_round (center_y (bbox c) - center_y (bbox p))\<bar> > movement_threshold s \<or>
                 \<bar>float64_round (size_x (bbox c) - size_x (bbox p))\<bar> > movement_threshold s \<or>
                 \<bar>float64_round (size_y (bbox c) - size_y (bbox p))\<bar> > movement_threshold s
              then True else player_moved s)"
  using assms
  by (simp add: detection_callback_some detect_movement_def emit_def
        delta_x_def delta_y_def delta_size_x_def delta_size_y_def)

text \<open>
  Two comparisons at threshold 10. Heights 80 then 95: the difference 15 is above the
  threshold and the flag is set. Heights \<open>float_0_3\<close> then \<open>float_10_3\<close>: the exact
  difference is above 10, the program's difference is 10, and the flag stays unset.
\<close>

theorem movement_flagged_iff_delta_exceeds_witness:
  "(state watching = ''RED_LIGHT'' \<and>
    previous_detection watching = Some (person 100 100 50 80) \<and>
    select_person [person 100 100 50 95] = (True, 95, Some (person 100 100 50 95)) \<and>
    \<bar>float64_round (size_y (bbox (person 100 100 50 95)) - size_y (bbox (person 100 100 50 80)))\<bar> = 15 \<and>
    movement_threshold watching = 10 \<and>
    \<not> player_moved watching \<and>
    (\<exists>s'. detection_callback [person 100 100 50 95] watching = Inr s' \<and> player_moved s')) \<and>
   (state crouching = ''RED_LIGHT'' \<and>
    previous_detection crouching = Some (person 100 100 50 float_0_3) \<and>
    select_person [person 100 100 50 float_10_3] =
      (True, float_10_3, Some (person 100 100 50 float_10_3)) \<and>
    float_10_3 - float_0_3 > 10 \<and>
    \<bar>float64_round (size_y (bbox (person 100 100 50 float_10_3))
                     - size_y (bbox (person 100 100 50 float_0_3)))\<bar> = 10 \<and>
    movement_threshold crouching = 10 \<and>
    \<not> player_moved crouching \<and>
    (\<exists>s'. detection_callback [person 100 100 50 float_10_3] crouching = Inr s' \<and>
           \<not> player_moved s'))"
proof -
  have pre: "state watching = ''RED_LIGHT''"
    "previous_detection watching = Some (person 100 100 50 80)"
    "select_person [person 100 100 50 95] = (True, 95, Some (person 100 100 50 95))"
    by (simp_all add: watching_def playing_def select_person_def person_def)
  have more: "\<bar>float64_round (size_y (bbox (person 100 100 50 95))
                               - size_y (bbox (person 100 100 50 80)))\<bar> = 15"
    "\<not> player_moved watching" "movement_threshold watching = 10"
    by (simp_all add: watching_def playing_def initial_def person_def float64_round_15)
  from movement_flagged_iff_delta_exceeds [OF pre] pre more
  have first: "\<exists>s'. detection_callback [person 100 100 50 95] watching = Inr s' \<and> player_moved s'"
    by auto
  have pre': "state crouching = ''RED_LIGHT''"
    "previous_detection crouching = Some (person 100 100 50 float_0_3)"
    "select_person [person 100 100 50 float_10_3] =
       (True, float_10_3, Some (person 100 100 50 float_10_3))"
    by (simp_all add: crouching_def playing_def select_person_def person_def float_10_3_def)
  have more': "float_10_3 - float_0_3 > 10"
    "\<bar>float64_round (size_y (bbox (person 100 100 50 float_10_3))
                     - size_y (bbox (person 100 100 50 float_0_3)))\<bar> = 10"
    "\<not> player_moved crouching" "movement_threshold crouching = 10"
    by (simp_all add: crouching_def playing_def initial_def person_def float64_round_boundary)
       (simp add: float_10_3_def float_0_3_def)
  have others: "float64_round (center_x (bbox (person 100 100 50 float_10_3))
                               - center_x (bbox (person 100 100 50 float_0_3))) = 0"
    "float64_round (center_y (bbox (person 100 100 50 float_10_3))
                     - center_y (bbox (person 100 100 50 float_0_3))) = 0"
    "float64_round (size_x (bbox (person 100 100 50 float_10_3))
                     - size_x (bbox (person 100 100 50 float_0_3))) = 0"
    by (simp_all add: person_def float64_round_zero)
  from movement_flagged_iff_delta_exceeds [OF pre'] more' others
  have second: "\<exists>s'. detection_callback [person 100 100 50 float_10_3] crouching = Inr s' \<and>
                     \<not> player_moved s'"
    by auto
  from pre more first pre' more' second show ?thesis by blast
qed

text \<open>
  Claim C8. With a threshold that is not negative, ingesting a frame whose selected
  person is \<open>d\<close> and then the same frame again in \<open>RED_LIGHT\<close>: the second
  comparison is of \<open>d\<close> with itself, its four differences are zero,
  \<open>detect_movement\<close> answers false, and the second ingest leaves the node, its
  movement flag included, as the first left it.
\<close>

theorem reingest_same_detection_no_movement:
  assumes "0 \<le> movement_threshold s"
      and "state s = ''RED_LIGHT''"
      and "select_person msg = (True, m, Some d)"
      and "detection_callback msg s = Inr s1"
  shows "delta_x d d = 0 \<and> delta_y d d = 0 \<and> delta_size_x d d = 0 \<and> delta_size_y d d = 0 \<and>
         \<not> fst (detect_movement d d s1) \<and>
         previous_detection s1 = Some d \<and>
         detection_callback msg s1 = Inr s1"
proof -
  have zero: "delta_x d d = 0" "delta_y d d = 0" "delta_size_x d d = 0" "delta_size_y d d = 0"
    by (simp_all add: delta_x_def delta_y_def delta_size_x_def delta_size_y_def
          float64_round_zero)
  from assms(3,4) have s1: "previous_detection s1 = Some d" "current_detection s1 = Some d"
    "state s1 = state s" "movement_threshold s1 = movement_threshold s"
    "size_y (bbox d) \<ge> size_y_finish_line s1 \<longrightarrow> player_reached_finish_line s1"
    by (auto simp add: detection_callback_some emit_def split: if_splits option.splits)
  from zero assms(1) s1(4) have still: "\<not> fst (detect_movement d d s1)"
    by (simp add: detect_movement_def)
  have same: "s1\<lparr>current_detection := Some d,
              player_reached_finish_line :=
                player_reached_finish_line s1 \<or> size_y (bbox d) \<ge> size_y_finish_line s1,
              previous_detection := Some d\<rparr> = s1"
    using s1(1,2,5) by (cases s1) auto
  have "detection_callback msg s1 = Inr s1"
    using assms(2,3) s1(1,3) still same by (simp add: detection_callback_some)
  with zero still s1(1) show ?thesis by simp
qed

theorem reingest_same_detection_no_movement_witness:
  "0 \<le> movement_threshold watching \<and> state watching = ''RED_LIGHT'' \<and>
   select_person [person 100 100 50 95] = (True, 95, Some (person 100 100 50 95)) \<and>
   (\<exists>s1. detection_callback [person 100 100 50 95] watching = Inr s1 \<and>
          player_moved s1 \<and>
          delta_size_y (person 100 100 50 95) (person 100 100 50 95) = 0 \<and>
          \<not> fst (detect_movement (person 100 100 50 95) (person 100 100 50 95) s1) \<and>
          detection_callback [person 100 100 50 95] s1 = Inr s1)"
proof -
  have pre: "0 \<le> movement_threshold watching" "state watching = ''RED_LIGHT''"
    "select_person [person 100 100 50 95] = (True, 95, Some (person 100 100 50 95))"
    by (simp_all add: watching_def playing_def initial_def select_person_def person_def)
  have "\<exists>s1. detection_callback [person 100 100 50 95] watching = Inr s1 \<and> player_moved s1"
    by (simp add: watching_def eval_defs float64_round_zero float64_round_15)
  then obtain s1 where cb: "detection_callback [person 100 100 50 95] watching = Inr s1"
    and mv: "player_moved s1"
    by blast
  from reingest_same_detection_no_movement [OF pre cb] pre cb mv show ?thesis by blast
qed

subsection \<open>The order of the checks in a tick\<close>

text \<open>
  Claim C3. A tick in \<open>GREEN_LIGHT\<close> or \<open>RED_LIGHT\<close> first stores the elapsed
  time computed from the game start. If it has reached the time limit the tick ends the
  game with \<open>LOSE\<close> and the time-out messages, whatever the finish-line flag, the
  movement flag and the phase deadline are. Below the limit, the finish-line flag in
  \<open>GREEN_LIGHT\<close> gives \<open>WIN\<close> and the movement flag in \<open>RED_LIGHT\<close> gives
  \<open>LOSE\<close>, whatever the deadline is. Only when neither holds is the deadline
  compared, and the scheduler asked for the next phase once it has passed.
\<close>

theorem tick_checks_in_order:
  assumes "state s = ''GREEN_LIGHT'' \<or> state s = ''RED_LIGHT''"
      and "game_start_time s = Some t0"
  shows "(real_of_int (clock_now e - t0) / 10 ^ 9 \<ge> time_limit s \<longrightarrow>
            main_loop e s =
              Inr (s\<lparr>elapsed_time := real_of_int (clock_now e - t0) / 10 ^ 9,
                     effects := effects s @ [Speak ''Time's up! Game Over!'',
                                             LogInfo ''Time limit reached. Player loses.''],
                     state := ''GAME_OVER'', game_result := Some ''LOSE''\<rparr>)) \<and>
         (real_of_int (clock_now e - t0) / 10 ^ 9 < time_limit s \<longrightarrow>
            state s = ''GREEN_LIGHT'' \<longrightarrow> player_reached_finish_line s \<longrightarrow>
            main_loop e s =
              Inr (s\<lparr>elapsed_time := real_of_int (clock_now e - t0) / 10 ^ 9,
                     effects := effects s @ [Speak ''Congratulations! You've won!'',
                                             LogInfo ''Player reached finish line. Player wins!''],
                     state := ''GAME_OVER'', game_result := Some ''WIN''\<rparr>)) \<and>
         (real_of_int (clock_now e - t0) / 10 ^ 9 < time_limit s \<longrightarrow>
            state s = ''RED_LIGHT'' \<longrightarrow> player_moved s \<longrightarrow> rotation_speed s \<noteq> 0 \<longrightarrow>
            (\<exists>s'. main_loop e s = Inr s' \<and> state s' = ''GAME_OVER'' \<and>
                   game_result s' = Some ''LOSE'' \<and>
                   last (effects s') = LogInfo ''Player moved during RED_LIGHT. Player loses.'')) \<and>
         (real_of_int (clock_now e - t0) / 10 ^ 9 < time_limit s \<longrightarrow>
            \<not> (state s = ''GREEN_LIGHT'' \<and> player_reached_finish_line s) \<longrightarrow>
            \<not> (state s = ''RED_LIGHT'' \<and> player_moved s) \<longrightarrow>
            (\<forall>t1. light_end_time s = Some t1 \<longrightarrow>
               main_loop e s =
                 (if clock_now e \<ge> t1
                  then Inr (start_random_light e
                              (s\<lparr>elapsed_time := real_of_int (clock_now e - t0) / 10 ^ 9\<rparr>))
                  else Inr (s\<lparr>elapsed_time := real_of_int (clock_now e - t0) / 10 ^ 9\<rparr>))))"
  using assms
  by (auto simp add: main_loop_def green_light_state_def red_light_state_def
        perform_180_rotation_def act_defs Let_def)

theorem tick_checks_in_order_witness:
  "state sprinting = ''GREEN_LIGHT'' \<and> game_start_time sprinting = Some 0 \<and>
   player_reached_finish_line sprinting \<and>
   real_of_int (clock_now (tick_at (120 * 10 ^ 9) True) - 0) / 10 ^ 9 \<ge> time_limit sprinting \<and>
   main_loop (tick_at (120 * 10 ^ 9) True) sprinting =
     Inr (sprinting\<lparr>elapsed_time := 120,
            effects := effects sprinting @ [Speak ''Time's up! Game Over!'',
                                            LogInfo ''Time limit reached. Player loses.''],
            state := ''GAME_OVER'', game_result := Some ''LOSE''\<rparr>)"
proof -
  have pre: "state sprinting = ''GREEN_LIGHT'' \<or> state sprinting = ''RED_LIGHT''"
    "game_start_time sprinting = Some 0"
    by (simp_all add: sprinting_def playing_def)
  have more: "player_reached_finish_line sprinting" "time_limit sprinting = 120"
    "clock_now (tick_at (120 * 10 ^ 9) True) = 120 * 10 ^ 9"
    "state sprinting = ''GREEN_LIGHT''"
    by (simp_all add: sprinting_def playing_def initial_def tick_at_def)
  from tick_checks_in_order [OF pre, of "tick_at (120 * 10 ^ 9) True"] pre more
  show ?thesis by simp
qed

subsection \<open>The terminal phase\<close>

lemma main_loop_game_over:
  "state s = ''GAME_OVER'' \<Longrightarrow> main_loop e s = Inr s' \<Longrightarrow>
     state s' = ''GAME_OVER'' \<and> game_result s' = game_result s"
  by (auto simp add: main_loop_def game_over_state_def act_defs split: option.splits)

lemma step_game_over:
  "state s = ''GAME_OVER'' \<Longrightarrow> step ev s = Inr s' \<Longrightarrow> state s' = ''GAME_OVER''"
  by (cases ev) (auto split: if_splits dest: main_loop_game_over detection_callback_state)

lemma step_game_over_result:
  "state s = ''GAME_OVER'' \<Longrightarrow> step ev s = Inr s' \<Longrightarrow> game_result s' = game_result s"
  by (cases ev) (auto split: if_splits dest: main_loop_game_over detection_callback_state)

lemma run_game_over:
  "state s = ''GAME_OVER'' \<Longrightarrow> run evs s = Inr s' \<Longrightarrow> state s' = ''GAME_OVER''"
proof (induction evs arbitrary: s)
  case Nil
  then show ?case by simp
next
  case (Cons ev evs)
  from Cons.prems(2) obtain s1 where one: "step ev s = Inr s1" and rest: "run evs s1 = Inr s'"
    by (auto split: sum.splits)
  from Cons.prems(1) one have "state s1 = ''GAME_OVER''"
    by (rule step_game_over)
  then show ?case using rest by (rule Cons.IH)
qed

text \<open>
  Claim C4. From a node whose phase is \<open>GAME_OVER\<close>, no tick, no detection message
  and no sequence of ticks and detection messages leads to another phase.
\<close>

theorem game_over_is_terminal:
  assumes "state s = ''GAME_OVER''"
  shows "(\<forall>e s'. main_loop e s = Inr s' \<longrightarrow> state s' = ''GAME_OVER'') \<and>
         (\<forall>msg s'. detection_callback msg s = Inr s' \<longrightarrow> state s' = ''GAME_OVER'') \<and>
         (\<forall>evs s'. run evs s = Inr s' \<longrightarrow> state s' = ''GAME_OVER'')"
  using assms
  by (auto dest: main_loop_game_over detection_callback_state run_game_over)

theorem game_over_is_terminal_witness:
  "state finished = ''GAME_OVER'' \<and>
   (\<exists>s'. run [Tick (tick_at 7 True), Detection [person 100 100 50 80], Tick (tick_at 8 False)]
           finished = Inr s' \<and> state s' = ''GAME_OVER'')"
proof -
  have st: "state finished = ''GAME_OVER''"
    by (simp add: finished_def playing_def)
  have "\<exists>s'. run [Tick (tick_at 7 True), Detection [person 100 100 50 80], Tick (tick_at 8 False)]
           finished = Inr s'"
    by (simp add: finished_def eval_defs)
  with game_over_is_terminal [OF st] st show ?thesis by blast
qed

subsection \<open>Entering the red light\<close>

text \<open>
  Claim C5. \<open>start_red_light\<close> leaves the stored previous detection absent and the
  movement flag false, whatever they were before; so every tick that enters
  \<open>RED_LIGHT\<close>, from another phase or again from \<open>RED_LIGHT\<close>, ends with both
  cleared.
\<close>

theorem start_red_light_clears_tracker:
  "previous_detection (start_red_light e s) = None \<and>
   \<not> player_moved (start_red_light e s) \<and>
   state (start_red_light e s) = ''RED_LIGHT'' \<and>
   (\<forall>e' s'. main_loop e' s = Inr s' \<longrightarrow> state s' = ''RED_LIGHT'' \<longrightarrow>
      state s \<noteq> ''RED_LIGHT'' \<or> red_light_announced s s' \<longrightarrow>
      previous_detection s' = None \<and> \<not> player_moved s')"
  by (auto simp add: main_loop_def phase_defs speak_all_emit act_defs Let_def
        red_light_announced_def
        start_red_light_fields start_green_light_fields
      split: if_splits option.splits sum.splits)

theorem start_red_light_clears_tracker_witness:
  "state caught \<noteq> ''RED_LIGHT'' \<and> player_moved caught \<and> previous_detection caught \<noteq> None \<and>
   (\<exists>s'. main_loop (tick_at (2 * 10 ^ 9) True) caught = Inr s' \<and> state s' = ''RED_LIGHT'' \<and>
          previous_detection s' = None \<and> \<not> player_moved s')"
proof -
  have pre: "state caught \<noteq> ''RED_LIGHT''" "player_moved caught" "previous_detection caught \<noteq> None"
    by (simp_all add: caught_def playing_def)
  have "\<exists>s'. main_loop (tick_at (2 * 10 ^ 9) True) caught = Inr s' \<and> state s' = ''RED_LIGHT''"
    by (simp add: caught_def eval_defs)
  with start_red_light_clears_tracker [of "tick_at 0 True" caught] pre show ?thesis by blast
qed

subsection \<open>The finish-line flag\<close>

lemma main_loop_finish_line:
  "main_loop e s = Inr s' \<Longrightarrow> player_reached_finish_line s \<Longrightarrow> player_reached_finish_line s'"
  by (auto simp add: main_loop_def phase_defs speak_all_emit act_defs Let_def
        start_red_light_fields start_green_light_fields
      split: if_splits option.splits sum.splits)

lemma step_finish_line:
  "step ev s = Inr s' \<Longrightarrow> player_reached_finish_line s \<Longrightarrow> player_reached_finish_line s'"
  by (cases ev) (auto split: if_splits dest: main_loop_finish_line detection_callback_finish_line)

lemma run_finish_line:
  "run evs s = Inr s' \<Longrightarrow> player_reached_finish_line s \<Longrightarrow> player_reached_finish_line s'"
proof (induction evs arbitrary: s)
  case Nil
  then show ?case by simp
next
  case (Cons ev evs)
  then show ?case
    by (auto split: sum.splits dest: step_finish_line)
qed

text \<open>
  Claim C6. When the selected person of a frame is at least as tall as the finish-line
  threshold, the callback sets \<open>player_reached_finish_line\<close>, and the flag is still
  set after any further ticks and detection messages.
\<close>

theorem finish_line_flag_sticky:
  assumes "select_person msg = (True, m, Some d)"
      and "size_y (bbox d) \<ge> size_y_finish_line s"
  shows "\<exists>s1. detection_callback msg s = Inr s1 \<and> player_reached_finish_line s1 \<and>
           (\<forall>evs s2. run evs s1 = Inr s2 \<longrightarrow> player_reached_finish_line s2)"
proof -
  obtain s1 where cb: "detection_callback msg s = Inr s1"
    and fl: "player_reached_finish_line s1"
    using assms by (simp add: detection_callback_some emit_def split: option.splits)
  from fl have "\<forall>evs s2. run evs s1 = Inr s2 \<longrightarrow> player_reached_finish_line s2"
    by (blast intro: run_finish_line)
  with cb fl show ?thesis by blast
qed

theorem finish_line_flag_sticky_witness:
  "select_person [person 100 100 60 450] = (True, 450, Some (person 100 100 60 450)) \<and>
   size_y (bbox (person 100 100 60 450)) \<ge> size_y_finish_line (playing ''GREEN_LIGHT'') \<and>
   (\<exists>s1 s2. detection_callback [person 100 100 60 450] (playing ''GREEN_LIGHT'') = Inr s1 \<and>
            player_reached_finish_line s1 \<and>
            run [Detection [], Tick (tick_at 5 True)] s1 = Inr s2 \<and>
            player_reached_finish_line s2)"
proof -
  have pre: "select_person [person 100 100 60 450] = (True, 450, Some (person 100 100 60 450))"
    "size_y (bbox (person 100 100 60 450)) \<ge> size_y_finish_line (playing ''GREEN_LIGHT'')"
    by (simp_all add: select_person_def person_def playing_def initial_def)
  from finish_line_flag_sticky [OF pre] obtain s1 where
    cb: "detection_callback [person 100 100 60 450] (playing ''GREEN_LIGHT'') = Inr s1"
    and fl: "player_reached_finish_line s1"
    and later: "\<forall>evs s2. run evs s1 = Inr s2 \<longrightarrow> player_reached_finish_line s2"
    by blast
  have "\<exists>s2. run [Detection [person 100 100 60 450], Detection [], Tick (tick_at 5 True)]
              (playing ''GREEN_LIGHT'') = Inr s2"
    by (simp add: eval_defs)
  with cb obtain s2 where "run [Detection [], Tick (tick_at 5 True)] s1 = Inr s2"
    by auto
  with pre cb fl later show ?thesis by blast
qed

subsection \<open>The stored previous detection\<close>

lemma main_loop_red_baseline:
  "main_loop e s = Inr s' \<Longrightarrow> state s' = ''RED_LIGHT'' \<Longrightarrow>
     (red_light_announced s s' \<and> previous_detection s' = None) \<or>
     (\<not> red_light_announced s s' \<and> state s = ''RED_LIGHT'' \<and>
      previous_detection s' = previous_detection s)"
  by (auto simp add: main_loop_def phase_defs speak_all_emit act_defs Let_def
        red_light_announced_def start_red_light_effects
        start_red_light_fields start_green_light_fields
      split: if_splits option.splits sum.splits)

lemma step_baseline:
  assumes "step ev s = Inr s'"
      and "state s = ''RED_LIGHT'' \<longrightarrow> (previous_detection s \<noteq> None) = b"
      and "state s' = ''RED_LIGHT''"
  shows "(previous_detection s' \<noteq> None) = person_seen ev s s' b"
proof (cases ev)
  case (Tick e)
  show ?thesis
  proof (cases "timer_active s")
    case True
    with Tick assms(1) have "main_loop e s = Inr s'" by simp
    from main_loop_red_baseline [OF this assms(3)] assms(2) Tick show ?thesis
      by auto
  next
    case False
    with Tick assms show ?thesis
      by (auto simp add: red_light_announced_def)
  qed
next
  case (Detection msg)
  with assms(1) have cb: "detection_callback msg s = Inr s'" by simp
  from detection_callback_state [OF cb] assms(3) have "state s = ''RED_LIGHT''" by simp
  with assms(2) detection_callback_baseline [OF cb] Detection show ?thesis
    by auto
qed

lemma run_seen_baseline:
  "run_seen evs (s, b) = Inr (s', b') \<Longrightarrow>
   (state s = ''RED_LIGHT'' \<longrightarrow> (previous_detection s \<noteq> None) = b) \<Longrightarrow>
   state s' = ''RED_LIGHT'' \<Longrightarrow> (previous_detection s' \<noteq> None) = b'"
proof (induction evs arbitrary: s b)
  case Nil
  then show ?case by simp
next
  case (Cons ev evs)
  from Cons.prems(1) obtain s1 where one: "step ev s = Inr s1"
    and rest: "run_seen evs (s1, person_seen ev s s1 b) = Inr (s', b')"
    by (auto split: sum.splits)
  have "state s1 = ''RED_LIGHT'' \<longrightarrow> (previous_detection s1 \<noteq> None) = person_seen ev s s1 b"
    using step_baseline [OF one Cons.prems(2)] by blast
  with rest show ?case using Cons.prems(3) by (rule Cons.IH)
qed

lemma run_seen_run:
  "run_seen evs (s, b) = Inr (s', b') \<Longrightarrow> run evs s = Inr s'"
  by (induction evs arbitrary: s b) (auto split: sum.splits)

text \<open>
  Claim C7, as the program has it. The callback stores the selected person as the
  previous detection in every phase, and only \<open>start_red_light\<close> clears it. In every
  state reached from the initial one whose phase is \<open>RED_LIGHT\<close>, the previous
  detection is present exactly when a person detection has arrived since that
  \<open>RED_LIGHT\<close> interval began. Outside \<open>RED_LIGHT\<close> nothing is promised.
\<close>

theorem baseline_in_red_light_iff_person_seen:
  assumes "run_seen evs (initial, False) = Inr (s, b)"
      and "state s = ''RED_LIGHT''"
  shows "run evs initial = Inr s \<and> (previous_detection s \<noteq> None) = b"
proof -
  have "state initial = ''RED_LIGHT'' \<longrightarrow> (previous_detection initial \<noteq> None) = False"
    by (simp add: initial_def)
  with assms(1) have "(previous_detection s \<noteq> None) = b"
    using assms(2) by (rule run_seen_baseline)
  with run_seen_run [OF assms(1)] show ?thesis by simp
qed

theorem baseline_in_red_light_iff_person_seen_witness:
  "(\<exists>s. run_seen (Detection [person 100 100 50 80] # red_opening) (initial, False) = Inr (s, False) \<and>
        state s = ''RED_LIGHT'' \<and> previous_detection s = None) \<and>
   (\<exists>s. run_seen (red_opening @ [Detection [person 100 100 50 80]]) (initial, False) = Inr (s, True) \<and>
        state s = ''RED_LIGHT'' \<and> previous_detection s \<noteq> None)"
proof -
  have "\<exists>s. run_seen (Detection [person 100 100 50 80] # red_opening) (initial, False) = Inr (s, False) \<and>
        state s = ''RED_LIGHT''"
    by (simp add: red_opening_def red_light_announced_def eval_defs)
  then obtain s1 where r1: "run_seen (Detection [person 100 100 50 80] # red_opening) (initial, False) = Inr (s1, False)"
    and st1: "state s1 = ''RED_LIGHT''"
    by blast
  have "\<exists>s. run_seen (red_opening @ [Detection [person 100 100 50 80]]) (initial, False) = Inr (s, True) \<and>
        state s = ''RED_LIGHT''"
    by (simp add: red_opening_def red_light_announced_def eval_defs)
  then obtain s2 where r2: "run_seen (red_opening @ [Detection [person 100 100 50 80]]) (initial, False) = Inr (s2, True)"
    and st2: "state s2 = ''RED_LIGHT''"
    by blast
  from baseline_in_red_light_iff_person_seen [OF r1 st1]
    baseline_in_red_light_iff_person_seen [OF r2 st2] r1 r2 st1 st2
  show ?thesis by auto
qed

text \<open>
  The previous detection is present outside \<open>RED_LIGHT\<close>: in \<open>INSTRUCTIONS\<close>
  after a detection that arrives before the first tick, in \<open>GREEN_LIGHT\<close> after a
  detection that arrives there, and in \<open>GREEN_LIGHT\<close> entered from a \<open>RED_LIGHT\<close>
  interval in which a person was seen.
\<close>

theorem baseline_outside_red_light_counterexample:
  "phase_and_baseline (run [Detection [person 100 100 50 80]] initial) =
     Some (''INSTRUCTIONS'', True) \<and>
   phase_and_baseline (run (green_opening @ [Detection [person 100 100 50 80]]) initial) =
     Some (''GREEN_LIGHT'', True) \<and>
   phase_and_baseline (run (red_opening @ [Detection [person 100 100 50 80],
                                           Tick (tick_at (2 * 10 ^ 9) True)]) initial) =
     Some (''GREEN_LIGHT'', True)"
  by (simp add: phase_and_baseline_def green_opening_def red_opening_def eval_defs)

subsection \<open>An unknown phase\<close>

text \<open>
  Claim C9, as the program has it. With a phase outside the six known ones,
  \<open>main_loop\<close> appends the error line \<open>Unknown state: ...\<close> to the log and returns
  with every field unchanged: no exception is raised and the timer is not cancelled, so
  the next tick does the same.
\<close>

theorem unknown_state_logged_not_fatal:
  assumes "state s \<notin> {''INSTRUCTIONS'', ''COUNTDOWN'', ''INIT'', ''GREEN_LIGHT'',
                        ''RED_LIGHT'', ''GAME_OVER''}"
  shows "main_loop e s = Inr (s\<lparr>effects := effects s @ [LogError (''Unknown state: '' @ state s)]\<rparr>) \<and>
         (timer_active s \<longrightarrow>
            step (Tick e) s = Inr (s\<lparr>effects := effects s @ [LogError (''Unknown state: '' @ state s)]\<rparr>))"
  using assms by (simp add: main_loop_def emit_def)

theorem unknown_state_logged_not_fatal_witness:
  "state (initial\<lparr>state := ''PAUSED''\<rparr>) \<notin> {''INSTRUCTIONS'', ''COUNTDOWN'', ''INIT'', ''GREEN_LIGHT'',
                        ''RED_LIGHT'', ''GAME_OVER''} \<and>
   timer_active (initial\<lparr>state := ''PAUSED''\<rparr>) \<and>
   step (Tick (tick_at 1 True)) (initial\<lparr>state := ''PAUSED''\<rparr>) =
     Inr (initial\<lparr>state := ''PAUSED'',
                  effects := [LogInfo ''Squid Game Node Initialized.'',
                              LogError ''Unknown state: PAUSED'']\<rparr>)"
  using unknown_state_logged_not_fatal [of "initial\<lparr>state := ''PAUSED''\<rparr>" "tick_at 1 True"]
  by (simp add: initial_def)

text \<open>
  Two ticks in the unknown phase \<open>PAUSED\<close>: both return, each adds one error line,
  and the timer is still running afterwards.
\<close>

theorem unknown_state_fatal_counterexample:
  "run [Tick (tick_at 1 True), Tick (tick_at 2 True)] (initial\<lparr>state := ''PAUSED''\<rparr>) =
     Inr (initial\<lparr>state := ''PAUSED'',
                  effects := [LogInfo ''Squid Game Node Initialized.'',
                              LogError ''Unknown state: PAUSED'',
                              LogError ''Unknown state: PAUSED'']\<rparr>) \<and>
   timer_active (initial\<lparr>state := ''PAUSED'',
                  effects := [LogInfo ''Squid Game Node Initialized.'',
                              LogError ''Unknown state: PAUSED'',
                              LogError ''Unknown state: PAUSED'']\<rparr>)"
  by (simp add: initial_def main_loop_def emit_def)

subsection \<open>The game result\<close>

lemma main_loop_result:
  "main_loop e s = Inr s' \<Longrightarrow> result_matches_phase s \<Longrightarrow> result_matches_phase s'"
  by (auto simp add: result_matches_phase_def main_loop_def phase_defs speak_all_emit act_defs
        Let_def start_red_light_fields start_green_light_fields
      split: if_splits option.splits sum.splits)

lemma step_result:
  "step ev s = Inr s' \<Longrightarrow> result_matches_phase s \<Longrightarrow> result_matches_phase s'"
proof (cases ev)
  case (Tick e)
  assume "step ev s = Inr s'" and "result_matches_phase s"
  with Tick show ?thesis
    by (auto split: if_splits dest: main_loop_result)
next
  case (Detection msg)
  assume "step ev s = Inr s'" and inv: "result_matches_phase s"
  with Detection have "state s' = state s \<and> game_result s' = game_result s"
    by (simp add: detection_callback_state)
  with inv show ?thesis
    by (simp add: result_matches_phase_def)
qed

lemma run_result:
  "run evs s = Inr s' \<Longrightarrow> result_matches_phase s \<Longrightarrow> result_matches_phase s'"
proof (induction evs arbitrary: s)
  case Nil
  then show ?case by simp
next
  case (Cons ev evs)
  from Cons.prems(1) obtain s1 where one: "step ev s = Inr s1" and rest: "run evs s1 = Inr s'"
    by (auto split: sum.splits)
  from one Cons.prems(2) have "result_matches_phase s1"
    by (rule step_result)
  with rest show ?case by (rule Cons.IH)
qed

text \<open>
  Claim C10. In every state reached from the initial one: in \<open>GAME_OVER\<close> the
  result field holds \<open>WIN\<close> or \<open>LOSE\<close> and \<open>game_over_state\<close> reads it without
  an \<open>AttributeError\<close>; in every other phase the field is still absent; and a step
  changes the field exactly when it moves the phase into \<open>GAME_OVER\<close>.
\<close>

theorem game_result_set_exactly_on_game_over:
  assumes "run evs initial = Inr s"
  shows "(state s = ''GAME_OVER'' \<longrightarrow>
            (game_result s = Some ''WIN'' \<or> game_result s = Some ''LOSE'') \<and>
            (\<exists>s'. game_over_state s = Inr s')) \<and>
         (state s \<noteq> ''GAME_OVER'' \<longrightarrow> game_result s = None) \<and>
         (\<forall>ev s'. step ev s = Inr s' \<longrightarrow>
            (game_result s' \<noteq> game_result s) =
              (state s \<noteq> ''GAME_OVER'' \<and> state s' = ''GAME_OVER''))"
proof -
  have "result_matches_phase initial"
    by (simp add: result_matches_phase_def initial_def)
  with assms have inv: "result_matches_phase s"
    by (rule run_result)
  have later: "(game_result s' \<noteq> game_result s) =
                 (state s \<noteq> ''GAME_OVER'' \<and> state s' = ''GAME_OVER'')"
    if one: "step ev s = Inr s'" for ev s'
  proof (cases "state s = ''GAME_OVER''")
    case True
    with one show ?thesis
      by (simp add: step_game_over_result)
  next
    case False
    from one inv have "result_matches_phase s'"
      by (rule step_result)
    with inv False show ?thesis
      by (auto simp add: result_matches_phase_def split: if_splits)
  qed
  from inv have "state s = ''GAME_OVER'' \<longrightarrow>
      (game_result s = Some ''WIN'' \<or> game_result s = Some ''LOSE'') \<and>
      (\<exists>s'. game_over_state s = Inr s')"
    by (auto simp add: result_matches_phase_def game_over_state_def)
  moreover from inv have "state s \<noteq> ''GAME_OVER'' \<longrightarrow> game_result s = None"
    by (simp add: result_matches_phase_def)
  ultimately show ?thesis using later by blast
qed

theorem game_result_set_exactly_on_game_over_witness:
  "\<exists>s. run winning_run initial = Inr s \<and> state s = ''GAME_OVER'' \<and>
        game_result s = Some ''WIN'' \<and> (\<exists>s'. game_over_state s = Inr s')"
proof -
  have "\<exists>s. run winning_run initial = Inr s \<and> state s = ''GAME_OVER'' \<and>
             game_result s = Some ''WIN''"
    by (simp add: winning_run_def eval_defs)
  then obtain s where r: "run winning_run initial = Inr s" and st: "state s = ''GAME_OVER''"
    and w: "game_result s = Some ''WIN''"
    by blast
  from game_result_set_exactly_on_game_over [OF r] st have "\<exists>s'. game_over_state s = Inr s'"
    by blast
  with r st w show ?thesis by blast
qed

end
